theory Spec2Isabelle
  imports Main "HOL-Library.Word" "HOL-Library.AList"
begin

section \<open>The multi-group Raft coordinator (package multiraft)\<close>

text \<open>
  A shallow embedding of \<^verbatim>\<open>multiraft.go\<close>: the coordinator state (\<^verbatim>\<open>state\<close>), the peer
  and group registries, the proposal bookkeeping, the coalesced heartbeats and the
  select loop of \<^verbatim>\<open>state.start\<close>.

  Conventions of the embedding.
  \<^item> \<^verbatim>\<open>uint64\<close> and \<^verbatim>\<open>NodeID\<close> are 64-bit words; Go's \<^verbatim>\<open>int\<close> tick counters are
    integers (the counter is reset before it can grow past the configured interval).
  \<^item> A Go \<^verbatim>\<open>map\<close> is an association list: lookup is \<open>map_of\<close>, assignment is
    \<open>AList.update\<close>, \<^verbatim>\<open>delete\<close> is \<open>AList.delete\<close>, and \<^verbatim>\<open>range\<close> visits the list in
    its order. Go leaves the iteration order open, so theorems are stated for every
    list; a map has one entry per key, which is the hypothesis \<open>distinct (map fst m)\<close>
    where a count depends on it.
  \<^item> \<^verbatim>\<open>*proposal\<close> values are addresses into a heap of proposal objects, because the
    same object sits in \<^verbatim>\<open>pending\<close> and in the proposal queue and \<^verbatim>\<open>p.ch = nil\<close>
    is seen through both.
  \<^item> Calls that leave the coordinator (the transport, the embedded \<^verbatim>\<open>raft.MultiNode\<close>,
    completion channels, the event channel, the write task) are appended to the
    \<open>effects\<close> log of the state, in program order. What the collaborators answer is the
    record \<open>env\<close>.
  \<^item> A nil-pointer dereference or \<^verbatim>\<open>log.Fatalf\<close> is the left summand of a result.
  \<^item> A \<^verbatim>\<open>[]byte\<close> and a Go \<^verbatim>\<open>string\<close> are both byte sequences: \<open>string\<close>.
  Logging is left out, and so is what \<^verbatim>\<open>stop\<close> does once the loop has taken the stop arm.
  Buffered channels are queues without a bound: the capacity (100 for the control
  channels, 1000 for \<^verbatim>\<open>Events\<close>, whose overflow panics in \<^verbatim>\<open>sendEvent\<close>) depends on how
  fast other goroutines drain them and is not part of the model.
\<close>

subsection \<open>Messages and entries of the embedded Raft library (raftpb)\<close>

type_synonym NodeID = "64 word"
type_synonym GroupID = "64 word"
type_synonym chan = nat
type_synonym addr = nat

definition MaxUint64 :: "64 word" where
  "MaxUint64 = 0xFFFFFFFFFFFFFFFF"

datatype MessageType =
    MsgHup | MsgBeat | MsgProp | MsgApp | MsgAppResp | MsgVote | MsgVoteResp
  | MsgSnap | MsgHeartbeat | MsgHeartbeatResp | MsgUnreachable | MsgSnapStatus

record Message =
  Type :: MessageType
  To :: "64 word"
  From :: "64 word"
  Term :: "64 word"

record RaftMessageRequest =
  GroupID :: GroupID
  Message :: Message

datatype EntryType = EntryNormal | EntryConfChange

record Entry =
  EntryType :: EntryType
  EntryTerm :: "64 word"
  Index :: "64 word"
  Data :: "string option"

datatype ConfChangeType = ConfChangeAddNode | ConfChangeRemoveNode | ConfChangeUpdateNode

record ConfChange =
  ChangeType :: ConfChangeType
  ConfChangeNodeID :: "64 word"
  Context :: string

record HardState =
  HardStateTerm :: "64 word"
  Vote :: "64 word"
  Commit :: "64 word"

record Snapshot =
  SnapshotData :: string
  SnapshotIndex :: "64 word"
  SnapshotTerm :: "64 word"

record Ready =
  SoftState :: "64 word option"
  HardState :: HardState
  Entries :: "Entry list"
  Snapshot :: Snapshot
  CommittedEntries :: "Entry list"
  Messages :: "Message list"

text \<open>\<open>SoftState\<close> is \<^verbatim>\<open>*raft.SoftState\<close>: \<open>None\<close> is nil, \<open>Some l\<close> carries the field \<^verbatim>\<open>Lead\<close>,
  the only one the coordinator reads.\<close>

definition IsEmptyHardState :: "HardState \<Rightarrow> bool" where
  "IsEmptyHardState st \<longleftrightarrow> HardStateTerm st = 0 \<and> Vote st = 0 \<and> Commit st = 0"

definition IsEmptySnap :: "Snapshot \<Rightarrow> bool" where
  "IsEmptySnap sp \<longleftrightarrow> SnapshotIndex sp = 0"

datatype SnapshotStatus = SnapshotFinish | SnapshotFailure

record raftConfig =
  Applied :: "64 word"
  ElectionTick :: int
  HeartbeatTick :: int
  MaxSizePerMsg :: "64 word"
  MaxInflightMsgs :: int

subsection \<open>Errors, events and the effects log\<close>

datatype err =
    GroupNotFound GroupID
  | InvalidGroup GroupID NodeID
  | External string

datatype panic = NilDereference | Fatal

text \<open>The closure \<^verbatim>\<open>fn\<close> of a proposal is the values it captures: \<^verbatim>\<open>SubmitCommand\<close> builds
  the first kind, \<^verbatim>\<open>ChangeGroupMembership\<close> the second.\<close>

datatype thunk =
    ProposeCommand GroupID string string
  | ProposeMembership GroupID string ConfChangeType NodeID string

datatype event =
    EventCommandCommitted GroupID string string "64 word"
  | EventMembershipChangeCommitted GroupID string "64 word" NodeID ConfChangeType string
  | EventLeaderElection GroupID NodeID "64 word"

text \<open>The \<^verbatim>\<open>Callback\<close> field of \<^verbatim>\<open>EventMembershipChangeCommitted\<close> is a closure over the
  group id and the decoded change, both already fields of the event.\<close>

record groupWriteRequest =
  gwr_state :: "HardState option"
  gwr_snapshot :: "Snapshot option"
  gwr_entries :: "Entry list option"

datatype effect =
    TransportSend NodeID RaftMessageRequest
  | Step GroupID Message
  | Tick
  | Campaign GroupID
  | MultiNodeCreateGroup GroupID raftConfig
  | MultiNodeRemoveGroup GroupID
  | MultiNodePropose GroupID string
  | MultiNodeProposeConfChange GroupID ConfChange
  | ReportUnreachable "64 word" GroupID
  | ReportSnapshot "64 word" GroupID SnapshotStatus
  | Advance "(GroupID \<times> Ready) list option"
  | ChanSend chan "err option"
  | SendEvent event
  | WriteTaskIn "(GroupID \<times> groupWriteRequest) list"

subsection \<open>The coordinator state\<close>

record proposal =
  groupID :: GroupID
  commandID :: string
  fn :: thunk
  ch :: "chan option"

record group =
  committedTerm :: "64 word"
  leader :: NodeID
  pending :: "(string \<times> addr) list"

record node =
  node_nodeID :: NodeID
  refCount :: int
  groupIDs :: "GroupID list"

record removeGroupOp =
  op_groupID :: GroupID
  op_ch :: chan

record state =
  nodeID :: NodeID
  ElectionTimeoutTicks :: int
  HeartbeatIntervalTicks :: int
  groups :: "(GroupID \<times> group) list"
  nodes :: "(NodeID \<times> node) list"
  heap :: "addr \<Rightarrow> proposal"
  proposalChan :: "addr list"
  effects :: "effect list"

text \<open>What the collaborators answer: \<^verbatim>\<open>Storage.GroupStorage(g).InitialState()\<close> (the nodes
  of the \<^verbatim>\<open>ConfState\<close> and the error), the optional \<^verbatim>\<open>StateMachine.AppliedIndex\<close>, the
  embedded \<^verbatim>\<open>MultiNode\<close>, \<^verbatim>\<open>Transport.Send\<close> and the protobuf decoder of \<^verbatim>\<open>ConfChange\<close>.\<close>

record env =
  InitialState :: "GroupID \<Rightarrow> NodeID list \<times> err option"
  StateMachine :: "(GroupID \<Rightarrow> 64 word \<times> err option) option"
  multiNode_CreateGroup :: "GroupID \<Rightarrow> err option"
  multiNode_RemoveGroup :: "GroupID \<Rightarrow> err option"
  Transport_Send :: "NodeID \<Rightarrow> RaftMessageRequest \<Rightarrow> err option"
  Unmarshal :: "string option \<Rightarrow> ConfChange \<times> err option"

definition emit :: "state \<Rightarrow> effect list \<Rightarrow> state" where
  "emit s es = s\<lparr>effects := effects s @ es\<rparr>"

definition newState :: "NodeID \<Rightarrow> int \<Rightarrow> int \<Rightarrow> (addr \<Rightarrow> proposal) \<Rightarrow> state" where
  "newState n et hb h =
     \<lparr>nodeID = n, ElectionTimeoutTicks = et, HeartbeatIntervalTicks = hb,
      groups = [], nodes = [], heap = h, proposalChan = [], effects = []\<rparr>"

subsection \<open>Peer registry\<close>

definition registerGroup :: "node \<Rightarrow> GroupID \<Rightarrow> node" where
  "registerGroup n g =
     n\<lparr>groupIDs := (if g \<in> set (groupIDs n) then groupIDs n else groupIDs n @ [g])\<rparr>"

definition unregisterGroup :: "node \<Rightarrow> GroupID \<Rightarrow> node" where
  "unregisterGroup n g = n\<lparr>groupIDs := removeAll g (groupIDs n)\<rparr>"

definition addNode :: "state \<Rightarrow> NodeID \<Rightarrow> GroupID list \<Rightarrow> err + state" where
  "addNode s n gs =
     (case find (\<lambda>g. map_of (groups s) g = None) gs of
        Some g \<Rightarrow> Inl (InvalidGroup g n)
      | None \<Rightarrow>
          let newNode = (case map_of (nodes s) n of
                           None \<Rightarrow> \<lparr>node_nodeID = n, refCount = 1, groupIDs = []\<rparr>
                         | Some nd \<Rightarrow> nd)
          in Inr (s\<lparr>nodes := AList.update n (foldl registerGroup newNode gs) (nodes s)\<rparr>))"

subsection \<open>Group lifecycle\<close>

definition newGroup :: group where
  "newGroup = \<lparr>committedTerm = 0, leader = 0, pending = []\<rparr>"

text \<open>The loop of \<^verbatim>\<open>createGroup\<close> over \<^verbatim>\<open>cs.Nodes\<close>: the first error of \<^verbatim>\<open>addNode\<close> is
  returned, with the registrations made so far kept.\<close>

fun createGroup_nodes :: "state \<Rightarrow> NodeID list \<Rightarrow> GroupID \<Rightarrow> err option \<times> state" where
  "createGroup_nodes s [] g = (None, s)"
| "createGroup_nodes s (n # ns) g =
     (case addNode s n [g] of
        Inl e \<Rightarrow> (Some e, s)
      | Inr s' \<Rightarrow> createGroup_nodes s' ns g)"

definition createGroup :: "env \<Rightarrow> state \<Rightarrow> GroupID \<Rightarrow> err option \<times> state" where
  "createGroup e s g =
     (if map_of (groups s) g \<noteq> None then (None, s)
      else case InitialState e g of
        (cs, Some er) \<Rightarrow> (Some er, s)
      | (cs, None) \<Rightarrow>
          (case (case StateMachine e of None \<Rightarrow> (0, None) | Some sm \<Rightarrow> sm g) of
             (appliedIndex, Some er) \<Rightarrow> (Some er, s)
           | (appliedIndex, None) \<Rightarrow>
               let raftCfg = \<lparr>Applied = appliedIndex,
                              ElectionTick = ElectionTimeoutTicks s,
                              HeartbeatTick = HeartbeatIntervalTicks s,
                              MaxSizePerMsg = 1024 * 1024, MaxInflightMsgs = 256\<rparr>;
                   s1 = emit s [MultiNodeCreateGroup g raftCfg]
               in (case multiNode_CreateGroup e g of
                     Some er \<Rightarrow> (Some er, s1)
                   | None \<Rightarrow>
                       (case createGroup_nodes
                               (s1\<lparr>groups := AList.update g newGroup (groups s1)\<rparr>) cs g of
                          (Some er, s3) \<Rightarrow> (Some er, s3)
                        | (None, s3) \<Rightarrow>
                            (None, if length cs = 1 \<and> [nodeID s3] = take 1 cs
                                   then emit s3 [Campaign g] else s3)))))"

text \<open>The loop of \<^verbatim>\<open>removeGroup\<close> over \<^verbatim>\<open>cs.Nodes\<close>: \<^verbatim>\<open>s.nodes[id]\<close> is nil for an
  unregistered id, and \<^verbatim>\<open>unregisterGroup\<close> dereferences it.\<close>

fun removeGroup_nodes :: "state \<Rightarrow> NodeID list \<Rightarrow> GroupID \<Rightarrow> panic + state" where
  "removeGroup_nodes s [] g = Inr s"
| "removeGroup_nodes s (n # ns) g =
     (case map_of (nodes s) n of
        None \<Rightarrow> Inl NilDereference
      | Some nd \<Rightarrow>
          removeGroup_nodes (s\<lparr>nodes := AList.update n (unregisterGroup nd g) (nodes s)\<rparr>) ns g)"

definition removeGroup :: "env \<Rightarrow> state \<Rightarrow> removeGroupOp \<Rightarrow> panic + state" where
  "removeGroup e s op =
     (case map_of (groups s) (op_groupID op) of
        None \<Rightarrow> Inr (emit s [ChanSend (op_ch op) None])
      | Some _ \<Rightarrow>
          let s1 = emit s [MultiNodeRemoveGroup (op_groupID op)]
          in (case multiNode_RemoveGroup e (op_groupID op) of
                Some er \<Rightarrow> Inr (emit s1 [ChanSend (op_ch op) (Some er)])
              | None \<Rightarrow>
                  (case InitialState e (op_groupID op) of (cs, er) \<Rightarrow>
                     let s2 = (case er of None \<Rightarrow> s1
                                        | Some x \<Rightarrow> emit s1 [ChanSend (op_ch op) (Some x)])
                     in (case removeGroup_nodes s2 cs (op_groupID op) of
                           Inl p \<Rightarrow> Inl p
                         | Inr s3 \<Rightarrow>
                             Inr (emit (s3\<lparr>groups := AList.delete (op_groupID op) (groups s3)\<rparr>)
                                       [ChanSend (op_ch op) None])))))"

subsection \<open>Proposals\<close>

text \<open>Modelled from the spec: \<^verbatim>\<open>encodeCommand\<close> and \<^verbatim>\<open>decodeCommand\<close> are not among the
  sources; the spec frames a command as the 16-byte command id followed by the opaque
  command, and decoding splits the frame again.\<close>

definition commandIDLen :: nat where
  "commandIDLen = 16"

definition encodeCommand :: "string \<Rightarrow> string \<Rightarrow> string" where
  "encodeCommand cid command = cid @ command"

definition decodeCommand :: "string \<Rightarrow> string \<times> string" where
  "decodeCommand d = (take commandIDLen d, drop commandIDLen d)"

text \<open>Calling \<^verbatim>\<open>p.fn()\<close> makes one call of the embedded propose primitive; its error
  is only logged.\<close>

fun thunk_call :: "thunk \<Rightarrow> effect" where
  "thunk_call (ProposeCommand g cid command) = MultiNodePropose g (encodeCommand cid command)"
| "thunk_call (ProposeMembership g cid ct n payload) =
     MultiNodeProposeConfChange g
       \<lparr>ChangeType = ct, ConfChangeNodeID = n, Context = encodeCommand cid payload\<rparr>"

definition run_fn :: "state \<Rightarrow> thunk \<Rightarrow> state" where
  "run_fn s t = emit s [thunk_call t]"

definition propose :: "state \<Rightarrow> addr \<Rightarrow> state" where
  "propose s p =
     (case map_of (groups s) (groupID (heap s p)) of
        None \<Rightarrow>
          (case ch (heap s p) of
             Some c \<Rightarrow> emit s [ChanSend c (Some (GroupNotFound (groupID (heap s p))))]
           | None \<Rightarrow> s)
      | Some g \<Rightarrow>
          run_fn (s\<lparr>groups := AList.update (groupID (heap s p))
                                (g\<lparr>pending := AList.update (commandID (heap s p)) p (pending g)\<rparr>)
                                (groups s)\<rparr>)
                 (fn (heap s p)))"

subsection \<open>Coalesced heartbeats\<close>

definition heartbeatTo :: "state \<Rightarrow> NodeID \<Rightarrow> effect" where
  "heartbeatTo s n =
     TransportSend n \<lparr>GroupID = MaxUint64,
                      Message = \<lparr>Type = MsgHeartbeat, To = n, From = nodeID s, Term = 0\<rparr>\<rparr>"

text \<open>\<^verbatim>\<open>coalescedHeartbeat\<close> ranges over \<^verbatim>\<open>s.nodes\<close>; the error of \<^verbatim>\<open>Transport.Send\<close> is only
  logged.\<close>

fun coalescedHeartbeat_loop :: "state \<Rightarrow> NodeID list \<Rightarrow> state" where
  "coalescedHeartbeat_loop s [] = s"
| "coalescedHeartbeat_loop s (n # ns) =
     (if n = nodeID s then coalescedHeartbeat_loop s ns
      else coalescedHeartbeat_loop (emit s [heartbeatTo s n]) ns)"

definition coalescedHeartbeat :: "state \<Rightarrow> state" where
  "coalescedHeartbeat s = coalescedHeartbeat_loop s (map fst (nodes s))"

text \<open>The tick arm of the select loop, with the loop's local counter \<^verbatim>\<open>ticks\<close>.\<close>

definition handleTick :: "state \<times> int \<Rightarrow> state \<times> int" where
  "handleTick st =
     (case st of (s, ticks) \<Rightarrow>
        let s1 = emit s [Tick]; ticks1 = ticks + 1
        in if ticks1 \<ge> HeartbeatIntervalTicks s1 then (coalescedHeartbeat s1, 0)
           else (s1, ticks1))"

definition heartbeatResponseTo :: "state \<Rightarrow> NodeID \<Rightarrow> effect" where
  "heartbeatResponseTo s n =
     TransportSend n \<lparr>GroupID = MaxUint64,
                      Message = \<lparr>Type = MsgHeartbeatResp, To = 0, From = nodeID s, Term = 0\<rparr>\<rparr>"

text \<open>The loops of the two fan-outs read \<^verbatim>\<open>s.groups[groupID].leader\<close> without a check: for
  a group id missing from the table the pointer is nil and the read panics.\<close>

fun fanoutHeartbeat_loop :: "state \<Rightarrow> Message \<Rightarrow> GroupID list \<Rightarrow> panic + state" where
  "fanoutHeartbeat_loop s m [] = Inr s"
| "fanoutHeartbeat_loop s m (g # gs) =
     (case map_of (groups s) g of
        None \<Rightarrow> Inl NilDereference
      | Some grp \<Rightarrow>
          if leader grp \<noteq> From m \<or> From m = nodeID s then fanoutHeartbeat_loop s m gs
          else fanoutHeartbeat_loop (emit s [Step g m]) m gs)"

definition fanoutHeartbeat :: "state \<Rightarrow> RaftMessageRequest \<Rightarrow> panic + state" where
  "fanoutHeartbeat s req =
     (case map_of (nodes s) (From (Message req)) of
        None \<Rightarrow> Inr (emit s [heartbeatResponseTo s (From (Message req))])
      | Some originNode \<Rightarrow> fanoutHeartbeat_loop s (Message req) (groupIDs originNode))"

fun fanoutHeartbeatResponse_loop :: "state \<Rightarrow> Message \<Rightarrow> GroupID list \<Rightarrow> panic + state" where
  "fanoutHeartbeatResponse_loop s m [] = Inr s"
| "fanoutHeartbeatResponse_loop s m (g # gs) =
     (case map_of (groups s) g of
        None \<Rightarrow> Inl NilDereference
      | Some grp \<Rightarrow>
          if leader grp \<noteq> nodeID s \<or> From m = nodeID s
          then fanoutHeartbeatResponse_loop s m gs
          else fanoutHeartbeatResponse_loop (emit s [Step g m]) m gs)"

definition fanoutHeartbeatResponse :: "state \<Rightarrow> RaftMessageRequest \<Rightarrow> panic + state" where
  "fanoutHeartbeatResponse s req =
     (case map_of (nodes s) (From (Message req)) of
        None \<Rightarrow> Inr s
      | Some originNode \<Rightarrow>
          fanoutHeartbeatResponse_loop s (Message req) (groupIDs originNode))"

subsection \<open>Applying a persisted ready batch\<close>

definition processCommittedEntry ::
  "env \<Rightarrow> state \<Rightarrow> GroupID \<Rightarrow> Entry \<Rightarrow> panic + string \<times> state" where
  "processCommittedEntry e s gid entry =
     (case EntryType entry of
        EntryNormal \<Rightarrow>
          (case Data entry of
             None \<Rightarrow> Inr ([], s)
           | Some d \<Rightarrow>
               (case decodeCommand d of (cid, command) \<Rightarrow>
                  Inr (cid, emit s [SendEvent (EventCommandCommitted gid cid command
                                                 (Index entry))])))
      | EntryConfChange \<Rightarrow>
          (case Unmarshal e (Data entry) of
             (cc, Some er) \<Rightarrow> Inl Fatal
           | (cc, None) \<Rightarrow>
               (case (if length (Context cc) > 0 then decodeCommand (Context cc)
                      else ([], [])) of (cid, payload) \<Rightarrow>
                  Inr (cid, emit s [SendEvent (EventMembershipChangeCommitted gid cid
                                                 (Index entry) (ConfChangeNodeID cc)
                                                 (ChangeType cc) payload)]))))"

text \<open>Within one group of a batch the source holds the pointer \<^verbatim>\<open>g\<close>; nothing else reads
  or replaces that table entry meanwhile, so the loops below carry the group beside the
  state and \<^verbatim>\<open>handleWriteResponse\<close> stores it back into the table.\<close>

definition finish :: "state \<Rightarrow> addr \<Rightarrow> state" where
  "finish s p =
     (case ch (heap s p) of
        Some c \<Rightarrow> (emit s [ChanSend c None])\<lparr>heap := (heap s)(p := (heap s p)\<lparr>ch := None\<rparr>)\<rparr>
      | None \<Rightarrow> s)"

fun commitEntries ::
  "env \<Rightarrow> GroupID \<Rightarrow> state \<times> group \<Rightarrow> Entry list \<Rightarrow> panic + state \<times> group" where
  "commitEntries e gid sg [] = Inr sg"
| "commitEntries e gid sg (entry # es) =
     (case processCommittedEntry e (fst sg) gid entry of
        Inl p \<Rightarrow> Inl p
      | Inr (cid, s1) \<Rightarrow>
          (case map_of (pending (snd sg)) cid of
             None \<Rightarrow> commitEntries e gid (s1, snd sg) es
           | Some p \<Rightarrow>
               commitEntries e gid
                 (finish s1 p, (snd sg)\<lparr>pending := AList.delete cid (pending (snd sg))\<rparr>) es))"

definition maybeSendLeaderEvent :: "GroupID \<Rightarrow> state \<times> group \<Rightarrow> Ready \<Rightarrow> state \<times> group" where
  "maybeSendLeaderEvent gid sg ready =
     (let g1 = (case SoftState ready of
                  Some lead \<Rightarrow> (snd sg)\<lparr>leader := lead\<rparr>
                | None \<Rightarrow> snd sg);
          term = (if length (CommittedEntries ready) > 0
                  then EntryTerm (last (CommittedEntries ready))
                  else committedTerm (snd sg))
      in if term \<noteq> committedTerm g1 \<and> leader g1 \<noteq> 0
         then ((emit (fst sg) [SendEvent (EventLeaderElection gid (leader g1) term)])
                  \<lparr>proposalChan := proposalChan (fst sg) @ map snd (pending g1)\<rparr>,
               g1\<lparr>committedTerm := term\<rparr>)
         else (fst sg, g1))"

definition sendMessage :: "env \<Rightarrow> state \<Rightarrow> GroupID \<Rightarrow> Message \<Rightarrow> state" where
  "sendMessage e s gid msg =
     (let s1 = (case map_of (nodes s) (To msg) of
                  Some _ \<Rightarrow> s
                | None \<Rightarrow> (case addNode s (To msg) [gid] of Inl er \<Rightarrow> s | Inr s' \<Rightarrow> s'));
          req = \<lparr>GroupID = gid, Message = msg\<rparr>;
          s2 = emit s1 [TransportSend (To msg) req]
      in case Transport_Send e (To msg) req of
           None \<Rightarrow>
             if Type msg = MsgSnap then emit s2 [ReportSnapshot (To msg) gid SnapshotFinish]
             else s2
         | Some er \<Rightarrow>
             if Type msg = MsgSnap
             then emit s2 [ReportUnreachable (To msg) gid,
                           ReportSnapshot (To msg) gid SnapshotFailure]
             else emit s2 [ReportUnreachable (To msg) gid])"

text \<open>The loop over \<^verbatim>\<open>ready.Messages\<close>; \<open>nmh\<close> is the map \<^verbatim>\<open>noMoreHeartbeats\<close>, which the
  source makes afresh for each group of the batch.\<close>

fun sendMessages :: "env \<Rightarrow> GroupID \<Rightarrow> state \<Rightarrow> 64 word list \<Rightarrow> Message list \<Rightarrow> state" where
  "sendMessages e gid s nmh [] = s"
| "sendMessages e gid s nmh (msg # ms) =
     (if Type msg = MsgHeartbeat then sendMessages e gid s nmh ms
      else if Type msg = MsgHeartbeatResp then
        (if To msg \<in> set nmh then sendMessages e gid s nmh ms
         else sendMessages e gid (sendMessage e s gid msg) (nmh @ [To msg]) ms)
      else sendMessages e gid (sendMessage e s gid msg) nmh ms)"

fun handleWriteResponse_loop :: "env \<Rightarrow> state \<Rightarrow> (GroupID \<times> Ready) list \<Rightarrow> panic + state" where
  "handleWriteResponse_loop e s [] = Inr s"
| "handleWriteResponse_loop e s (gr # rs) =
     (case map_of (groups s) (fst gr) of
        None \<Rightarrow> handleWriteResponse_loop e s rs
      | Some g \<Rightarrow>
          (case commitEntries e (fst gr) (s, g) (CommittedEntries (snd gr)) of
             Inl p \<Rightarrow> Inl p
           | Inr sg1 \<Rightarrow>
               (case maybeSendLeaderEvent (fst gr) sg1 (snd gr) of (s2, g2) \<Rightarrow>
                  handleWriteResponse_loop e
                    (sendMessages e (fst gr)
                       (s2\<lparr>groups := AList.update (fst gr) g2 (groups s2)\<rparr>) []
                       (Messages (snd gr)))
                    rs)))"

text \<open>A nil map of ready groups (\<open>None\<close>) ranges over nothing.\<close>

definition handleWriteResponse ::
  "env \<Rightarrow> state \<Rightarrow> (GroupID \<times> Ready) list option \<Rightarrow> panic + state" where
  "handleWriteResponse e s readyGroups =
     handleWriteResponse_loop e s (case readyGroups of None \<Rightarrow> [] | Some rg \<Rightarrow> rg)"

subsection \<open>The select loop of \<^verbatim>\<open>state.start\<close>\<close>

definition groupWriteRequestOf :: "Ready \<Rightarrow> groupWriteRequest" where
  "groupWriteRequestOf ready =
     \<lparr>gwr_state = (if \<not> IsEmptyHardState (HardState ready) then Some (HardState ready)
                    else None),
      gwr_snapshot = (if \<not> IsEmptySnap (Snapshot ready) then Some (Snapshot ready) else None),
      gwr_entries = (if length (Entries ready) > 0 then Some (Entries ready) else None)\<rparr>"

definition writeRequestOf ::
  "(GroupID \<times> Ready) list option \<Rightarrow> (GroupID \<times> groupWriteRequest) list" where
  "writeRequestOf readyGroups =
     foldl (\<lambda>m gr. AList.update (fst gr) (groupWriteRequestOf (snd gr)) m) []
           (case readyGroups of None \<Rightarrow> [] | Some rg \<Rightarrow> rg)"

definition handleWriteReady :: "state \<Rightarrow> (GroupID \<times> Ready) list option \<Rightarrow> state" where
  "handleWriteReady s readyGroups = emit s [WriteTaskIn (writeRequestOf readyGroups)]"

text \<open>Modelled from the spec: the write task (\<^verbatim>\<open>newWriteTask\<close> and its channels \<^verbatim>\<open>ready\<close>,
  \<^verbatim>\<open>in\<close> and \<^verbatim>\<open>out\<close>) is not among the sources. By the spec it accepts the ready
  handshake when it is idle, then takes one batched request on \<^verbatim>\<open>in\<close>, persists it and
  emits one acknowledgement on \<^verbatim>\<open>out\<close>. The field \<open>writeTask\<close> of the loop is the request
  it holds and has not yet acknowledged, \<open>None\<close> when it is idle; the other fields are the
  loop's local variables beside the coordinator state. \<open>None\<close> is a nil map; a batch
  received from \<^verbatim>\<open>multiNode.Ready()\<close> is a map, possibly empty, never nil.\<close>

record loop =
  st :: state
  readyGroups :: "(GroupID \<times> Ready) list option"
  writingGroups :: "(GroupID \<times> Ready) list option"
  ticks :: int
  writeTask :: "(GroupID \<times> groupWriteRequest) list option"

text \<open>One iteration takes one arm of the select. \<open>CallbackChan\<close> carries the thunk read
  from \<^verbatim>\<open>callbackChan\<close>: it may change the coordinator state, and cannot reach the loop's
  local variables. \<open>EnqueueProposal\<close> is not an arm: it is another goroutine
  (\<^verbatim>\<open>SubmitCommand\<close>, \<^verbatim>\<open>ChangeGroupMembership\<close>) putting its proposal object on
  \<^verbatim>\<open>proposalChan\<close>.\<close>

datatype action =
    ShouldStop
  | ReqChan RaftMessageRequest
  | CreateGroupChan GroupID chan
  | RemoveGroupChan removeGroupOp
  | ProposalChan
  | RaftReady "(GroupID \<times> Ready) list"
  | WriteReady
  | WriteTaskOut
  | TickerChan
  | CallbackChan "state \<Rightarrow> panic + state"
  | EnqueueProposal addr

datatype halt = Stopped | Panicked panic | NotSelectable

definition raftReady_armed :: "loop \<Rightarrow> bool" where
  "raftReady_armed l \<longleftrightarrow> readyGroups l = None \<and> writingGroups l = None"

definition writeReady_armed :: "loop \<Rightarrow> bool" where
  "writeReady_armed l \<longleftrightarrow> readyGroups l \<noteq> None"

definition with_st :: "loop \<Rightarrow> panic + state \<Rightarrow> halt + loop" where
  "with_st l r = (case r of Inl p \<Rightarrow> Inl (Panicked p) | Inr s \<Rightarrow> Inr (l\<lparr>st := s\<rparr>))"

fun loop_step :: "env \<Rightarrow> loop \<Rightarrow> action \<Rightarrow> halt + loop" where
  "loop_step e l ShouldStop = Inl Stopped"
| "loop_step e l (ReqChan req) =
     (if Type (Message req) = MsgHeartbeat then with_st l (fanoutHeartbeat (st l) req)
      else if Type (Message req) = MsgHeartbeatResp
      then with_st l (fanoutHeartbeatResponse (st l) req)
      else (case (if map_of (groups (st l)) (GroupID req) = None
                  then createGroup e (st l) (GroupID req) else (None, st l)) of
              (Some er, s1) \<Rightarrow> Inr (l\<lparr>st := s1\<rparr>)
            | (None, s1) \<Rightarrow> Inr (l\<lparr>st := emit s1 [Step (GroupID req) (Message req)]\<rparr>)))"
| "loop_step e l (CreateGroupChan gid c) =
     (case createGroup e (st l) gid of (r, s1) \<Rightarrow> Inr (l\<lparr>st := emit s1 [ChanSend c r]\<rparr>))"
| "loop_step e l (RemoveGroupChan op) = with_st l (removeGroup e (st l) op)"
| "loop_step e l ProposalChan =
     (case proposalChan (st l) of
        [] \<Rightarrow> Inl NotSelectable
      | p # ps \<Rightarrow> Inr (l\<lparr>st := propose ((st l)\<lparr>proposalChan := ps\<rparr>) p\<rparr>))"
| "loop_step e l (RaftReady rg) =
     (if raftReady_armed l then Inr (l\<lparr>readyGroups := Some rg\<rparr>) else Inl NotSelectable)"
| "loop_step e l WriteReady =
     (if writeReady_armed l \<and> writeTask l = None
      then Inr (l\<lparr>st := handleWriteReady (st l) (readyGroups l),
                  writeTask := Some (writeRequestOf (readyGroups l)),
                  writingGroups := readyGroups l,
                  readyGroups := None\<rparr>)
      else Inl NotSelectable)"
| "loop_step e l WriteTaskOut =
     (case writeTask l of
        None \<Rightarrow> Inl NotSelectable
      | Some req \<Rightarrow>
          (case handleWriteResponse e (st l) (writingGroups l) of
             Inl p \<Rightarrow> Inl (Panicked p)
           | Inr s1 \<Rightarrow> Inr (l\<lparr>st := emit s1 [Advance (writingGroups l)],
                              writingGroups := None,
                              writeTask := None\<rparr>)))"
| "loop_step e l TickerChan =
     (case handleTick (st l, ticks l) of (s1, t1) \<Rightarrow> Inr (l\<lparr>st := s1, ticks := t1\<rparr>))"
| "loop_step e l (CallbackChan cb) = with_st l (cb (st l))"
| "loop_step e l (EnqueueProposal a) =
     Inr (l\<lparr>st := (st l)\<lparr>proposalChan := proposalChan (st l) @ [a]\<rparr>\<rparr>)"

fun run :: "env \<Rightarrow> loop \<Rightarrow> action list \<Rightarrow> halt + loop" where
  "run e l [] = Inr l"
| "run e l (a # as) = (case loop_step e l a of Inl h \<Rightarrow> Inl h | Inr l' \<Rightarrow> run e l' as)"

definition start :: "state \<Rightarrow> loop" where
  "start s = \<lparr>st = s, readyGroups = None, writingGroups = None, ticks = 0, writeTask = None\<rparr>"

section \<open>Notions used by the statements\<close>


text \<open>The transport sends in a list of effects, and their destinations.\<close>

fun isSend :: "effect \<Rightarrow> bool" where
  "isSend (TransportSend n r) = True"
| "isSend _ = False"

fun isSendOf :: "MessageType \<Rightarrow> effect \<Rightarrow> bool" where
  "isSendOf t (TransportSend n r) = (Type (Message r) = t)"
| "isSendOf t _ = False"

fun isSendTo :: "MessageType \<Rightarrow> NodeID \<Rightarrow> effect \<Rightarrow> bool" where
  "isSendTo t d (TransportSend n r) = (Type (Message r) = t \<and> n = d)"
| "isSendTo t d _ = False"


text \<open>The signals on a completion channel.\<close>

fun isSignalOn :: "chan \<Rightarrow> effect \<Rightarrow> bool" where
  "isSignalOn c (ChanSend c' r) = (c' = c)"
| "isSignalOn c _ = False"


fun termHistory :: "GroupID \<Rightarrow> state \<times> group \<Rightarrow> Ready list \<Rightarrow> 64 word list" where
  "termHistory gid sg [] = [committedTerm (snd sg)]"
| "termHistory gid sg (r # rs) =
     committedTerm (snd sg) # termHistory gid (maybeSendLeaderEvent gid sg r) rs"

text \<open>Every group id registered for a peer is a key of the group table.\<close>

definition registeredGroupsKnown :: "state \<Rightarrow> bool" where
  "registeredGroupsKnown s \<longleftrightarrow>
     list_all (\<lambda>nd. list_all (\<lambda>g. map_of (groups s) g \<noteq> None) (groupIDs (snd nd))) (nodes s)"

text \<open>The relation between the loop's two stashes and the write task that the loop
  maintains: a stashed ready batch excludes a batch in flight, and the write task holds
  exactly the request made from the batch in flight.\<close>

definition pipelineInv :: "loop \<Rightarrow> bool" where
  "pipelineInv l \<longleftrightarrow>
     (readyGroups l \<noteq> None \<longrightarrow> writingGroups l = None) \<and>
     writeTask l = (case writingGroups l of
                      None \<Rightarrow> None
                    | Some b \<Rightarrow> Some (writeRequestOf (Some b)))"

section \<open>Concrete scenarios\<close>

text \<open>A node with id 1 whose storage lists node 1 as the only member of every group,
  with collaborators that never fail, and a proposal object for group 1.\<close>

definition env0 :: env where
  "env0 = \<lparr>InitialState = (\<lambda>g. ([1], None)), StateMachine = None,
           multiNode_CreateGroup = (\<lambda>g. None), multiNode_RemoveGroup = (\<lambda>g. None),
           Transport_Send = (\<lambda>n r. None),
           Unmarshal = (\<lambda>d. (\<lparr>ChangeType = ConfChangeAddNode, ConfChangeNodeID = 0,
                                  Context = []\<rparr>, None))\<rparr>"

definition prop0 :: proposal where
  "prop0 = \<lparr>groupID = 1, commandID = ''cmd-0000-0000-01'',
            fn = ProposeCommand 1 ''cmd-0000-0000-01'' ''hello'', ch = Some 7\<rparr>"

definition state0 :: state where
  "state0 = newState 1 10 1 (\<lambda>a. prop0)"

definition raftCfg0 :: raftConfig where
  "raftCfg0 = \<lparr>Applied = 0, ElectionTick = 10, HeartbeatTick = 1,
               MaxSizePerMsg = 1024 * 1024, MaxInflightMsgs = 256\<rparr>"

text \<open>\<open>state1\<close>: after \<^verbatim>\<open>createGroup(1)\<close> on the fresh state; \<open>state2\<close>: after the removal
  of group 1 from \<open>state1\<close>, requested by \<open>removeOp1\<close>.\<close>

definition state1 :: state where
  "state1 = state0\<lparr>groups := [(1, newGroup)],
                    nodes := [(1, \<lparr>node_nodeID = 1, refCount = 1, groupIDs = [1]\<rparr>)],
                    effects := [MultiNodeCreateGroup 1 raftCfg0, Campaign 1]\<rparr>"

definition removeOp1 :: removeGroupOp where
  "removeOp1 = \<lparr>op_groupID = 1, op_ch = 3\<rparr>"

definition state2 :: state where
  "state2 = state0\<lparr>nodes := [(1, \<lparr>node_nodeID = 1, refCount = 1, groupIDs = []\<rparr>)],
                    effects := [MultiNodeCreateGroup 1 raftCfg0, Campaign 1,
                                MultiNodeRemoveGroup 1, ChanSend 3 None]\<rparr>"

text \<open>A proposal object whose completion channel was already signalled and nulled.\<close>

definition state_done :: state where
  "state_done = newState 1 10 1 (\<lambda>a. prop0\<lparr>ch := None\<rparr>)"

text \<open>\<open>state3\<close>: node 1 with peers 2 and 3 registered for group 1, whose recorded leader
  is node 2; \<open>heartbeat2\<close> is a coalesced heartbeat from node 2, \<open>heartbeat9\<close> one from the
  unknown node 9.\<close>

definition state3 :: state where
  "state3 = state0\<lparr>groups := [(1, newGroup\<lparr>leader := 2\<rparr>), (2, newGroup\<lparr>leader := 3\<rparr>)],
                    nodes := [(1, \<lparr>node_nodeID = 1, refCount = 1, groupIDs = [1, 2]\<rparr>),
                              (2, \<lparr>node_nodeID = 2, refCount = 1, groupIDs = [1, 2]\<rparr>),
                              (3, \<lparr>node_nodeID = 3, refCount = 1, groupIDs = [2]\<rparr>)]\<rparr>"

definition heartbeat2 :: RaftMessageRequest where
  "heartbeat2 = \<lparr>GroupID = MaxUint64,
                 Message = \<lparr>Type = MsgHeartbeat, To = 1, From = 2, Term = 0\<rparr>\<rparr>"


text \<open>Ready structs: an empty one; one whose only message is a heartbeat response to
  node 2; a batch with such a response in each of the groups 1 and 2; the ready of an
  election won by node 1 in term \<open>t\<close>, which commits the empty entry of that term; and a
  reply to a vote request of node 2.\<close>

definition emptyReady :: Ready where
  "emptyReady = \<lparr>SoftState = None,
                 HardState = \<lparr>HardStateTerm = 0, Vote = 0, Commit = 0\<rparr>,
                 Entries = [],
                 Snapshot = \<lparr>SnapshotData = [], SnapshotIndex = 0, SnapshotTerm = 0\<rparr>,
                 CommittedEntries = [], Messages = []\<rparr>"



definition electionReady :: "64 word \<Rightarrow> Ready" where
  "electionReady t =
     emptyReady\<lparr>SoftState := Some 1,
                 CommittedEntries := [\<lparr>EntryType = EntryNormal, EntryTerm = t, Index = t,
                                       Data = None\<rparr>]\<rparr>"

text \<open>The ready of a group after an election won by node \<open>lead\<close> in term \<open>t\<close>, and a
  storage that lists the nodes 1, 2 and 3 as the members of every group.\<close>

definition leaderChange :: "NodeID \<Rightarrow> 64 word \<Rightarrow> Ready" where
  "leaderChange lead t =
     emptyReady\<lparr>SoftState := Some lead,
                 CommittedEntries := [\<lparr>EntryType = EntryNormal, EntryTerm = t, Index = t,
                                       Data = None\<rparr>]\<rparr>"

definition env3 :: env where
  "env3 = env0\<lparr>InitialState := (\<lambda>g. ([1, 2, 3], None))\<rparr>"

definition voteReq2 :: RaftMessageRequest where
  "voteReq2 = \<lparr>GroupID = 1, Message = \<lparr>Type = MsgVote, To = 1, From = 2, Term = 1\<rparr>\<rparr>"

definition voteReplyReady :: Ready where
  "voteReplyReady =
     emptyReady\<lparr>Messages := [\<lparr>Type = MsgVoteResp, To = 2, From = 1, Term = 1\<rparr>]\<rparr>"


text \<open>Two runs of the loop from the fresh state. In \<open>trace_requeued\<close> a command is
  proposed in group 1, two elections (won by node 2 in term 1, then by node 3 in term 2)
  are committed while it is pending, each of which puts the proposal object back on the
  proposal queue, the group is removed, and the queue is then served. In \<open>trace_dangling\<close> node 2 asks group 1 for a vote, the reply registers
  node 2 for the group at send time, and the group is removed; \<open>trace_dangling_hb\<close>
  continues with a coalesced heartbeat from node 2.\<close>

definition trace_requeued :: "action list" where
  "trace_requeued =
     [CreateGroupChan 1 5, EnqueueProposal 0, ProposalChan,
      RaftReady [(1, leaderChange 2 1)], WriteReady, WriteTaskOut,
      RaftReady [(1, leaderChange 3 2)], WriteReady, WriteTaskOut,
      RemoveGroupChan removeOp1, ProposalChan, ProposalChan]"

definition trace_dangling :: "action list" where
  "trace_dangling =
     [CreateGroupChan 1 5, ReqChan voteReq2,
      RaftReady [(1, voteReplyReady)], WriteReady, WriteTaskOut,
      RemoveGroupChan removeOp1]"

definition trace_dangling_hb :: "action list" where
  "trace_dangling_hb = trace_dangling @ [ReqChan heartbeat2]"

text \<open>The loop after it took the ready batch \<open>readyBatch1\<close> from Raft in its first
  iteration (\<open>loop1\<close>), and after it then handed the batch to the write task (\<open>loop2\<close>).\<close>

definition readyBatch1 :: "(GroupID \<times> Ready) list" where
  "readyBatch1 = [(1, electionReady 1)]"

definition loop1 :: loop where
  "loop1 = (start state0)\<lparr>readyGroups := Some readyBatch1\<rparr>"

definition loop2 :: loop where
  "loop2 = (start state0)\<lparr>st := emit state0 [WriteTaskIn (writeRequestOf (Some readyBatch1))],
                          writingGroups := Some readyBatch1,
                          writeTask := Some (writeRequestOf (Some readyBatch1))\<rparr>"

section \<open>Verification\<close>

subsection \<open>createGroup\<close>

lemma emit_simps [simp]:
  "groups (emit s es) = groups s" "nodes (emit s es) = nodes s" "heap (emit s es) = heap s"
  "nodeID (emit s es) = nodeID s" "proposalChan (emit s es) = proposalChan s"
  "HeartbeatIntervalTicks (emit s es) = HeartbeatIntervalTicks s"
  "ElectionTimeoutTicks (emit s es) = ElectionTimeoutTicks s"
  "effects (emit s es) = effects s @ es"
  by (simp_all add: emit_def)

lemma addNode_groups: "addNode s n gs = Inr s' \<Longrightarrow> groups s' = groups s"
  by (auto simp: addNode_def Let_def split: option.splits)

lemma addNode_present: "map_of (groups s) g \<noteq> None \<Longrightarrow> \<exists>s'. addNode s n [g] = Inr s'"
  by (auto simp: addNode_def Let_def split: option.splits)

lemma createGroup_nodes_groups: "createGroup_nodes s ns g = (r, s') \<Longrightarrow> groups s' = groups s"
  by (induction s ns g rule: createGroup_nodes.induct) (auto split: sum.splits dest: addNode_groups)

lemma createGroup_nodes_ok: "map_of (groups s) g \<noteq> None \<Longrightarrow> fst (createGroup_nodes s ns g) = None"
proof (induction ns arbitrary: s)
  case Nil
  then show ?case by simp
next
  case (Cons n ns)
  from Cons.prems obtain s' where a: "addNode s n [g] = Inr s'"
    using addNode_present by blast
  then have "groups s' = groups s" by (rule addNode_groups)
  with Cons a show ?case by simp
qed

lemma createGroup_present: "map_of (groups s) g \<noteq> None \<Longrightarrow> createGroup e s g = (None, s)"
  by (simp add: createGroup_def)

lemma createGroup_groups:
  assumes "createGroup e s g = (None, s1)" and "map_of (groups s) g = None"
  shows "groups s1 = AList.update g newGroup (groups s)"
proof -
  obtain cs er where i: "InitialState e g = (cs, er)" by (cases "InitialState e g")
  obtain ai er2 where a: "(case StateMachine e of None \<Rightarrow> (0, None) | Some sm \<Rightarrow> sm g) = (ai, er2)"
    by (cases "(case StateMachine e of None \<Rightarrow> (0::64 word, None::err option) | Some sm \<Rightarrow> sm g)")
  obtain r s3 where n: "createGroup_nodes
         ((emit s [MultiNodeCreateGroup g \<lparr>Applied = ai, ElectionTick = ElectionTimeoutTicks s,
             HeartbeatTick = HeartbeatIntervalTicks s, MaxSizePerMsg = 1024 * 1024, MaxInflightMsgs = 256\<rparr>])
           \<lparr>groups := AList.update g newGroup (groups s)\<rparr>) cs g = (r, s3)"
    by (cases "createGroup_nodes
         ((emit s [MultiNodeCreateGroup g \<lparr>Applied = ai, ElectionTick = ElectionTimeoutTicks s,
             HeartbeatTick = HeartbeatIntervalTicks s, MaxSizePerMsg = 1024 * 1024, MaxInflightMsgs = 256\<rparr>])
           \<lparr>groups := AList.update g newGroup (groups s)\<rparr>) cs g")
  from n have g3: "groups s3 = AList.update g newGroup (groups s)"
    by (auto dest: createGroup_nodes_groups)
  from assms i a n have "s1 = s3 \<or> s1 = emit s3 [Campaign g]"
    by (simp add: createGroup_def Let_def split: option.splits if_splits)
  with g3 show ?thesis by auto
qed


lemma count_update_absent:
  "map_of al k = None \<Longrightarrow> count_list (map fst (AList.update k v al)) k = 1"
  by (induction al) (auto split: if_splits)

lemma count_list_distinct:
  "distinct xs \<Longrightarrow> count_list xs k = (if k \<in> set xs then 1 else 0)"
  by (induction xs) auto

lemma count_present:
  "distinct (map fst al) \<Longrightarrow> map_of al k \<noteq> None \<Longrightarrow> count_list (map fst al) k = 1"
  by (simp add: count_list_distinct map_of_eq_None_iff)


lemma createGroup_succeeds:
  assumes "snd (InitialState e g) = None"
      and "StateMachine e = None \<or> (\<exists>sm. StateMachine e = Some sm \<and> snd (sm g) = None)"
      and "multiNode_CreateGroup e g = None"
  shows "fst (createGroup e s g) = None"
proof (cases "map_of (groups s) g")
  case (Some x)
  then show ?thesis by (simp add: createGroup_present)
next
  case None
  obtain cs where i: "InitialState e g = (cs, None)"
    using assms(1) by (cases "InitialState e g") simp
  obtain ai where a: "(case StateMachine e of None \<Rightarrow> (0, None) | Some sm \<Rightarrow> sm g) = (ai, None)"
    using assms(2) by (cases "StateMachine e") (auto simp: prod_eq_iff)
  let ?s2 = "(emit s [MultiNodeCreateGroup g \<lparr>Applied = ai, ElectionTick = ElectionTimeoutTicks s,
             HeartbeatTick = HeartbeatIntervalTicks s, MaxSizePerMsg = 1024 * 1024, MaxInflightMsgs = 256\<rparr>])
           \<lparr>groups := AList.update g newGroup (groups s)\<rparr>"
  have "map_of (groups ?s2) g \<noteq> None" by (simp add: update_conv')
  then have "fst (createGroup_nodes ?s2 cs g) = None" by (rule createGroup_nodes_ok)
  then obtain s3 where n: "createGroup_nodes ?s2 cs g = (None, s3)"
    by (cases "createGroup_nodes ?s2 cs g") simp
  from None i a n assms(3) show ?thesis
    by (simp add: createGroup_def Let_def)
qed

text \<open>
  Claim C8. \<^verbatim>\<open>createGroup\<close> is idempotent: for a group id already in the group table
  it returns a nil error and leaves the whole state (the effects log included) as it
  was. Hence when a first call succeeded, the group is in the table, a second call
  succeeds with the state unchanged, and the table holds exactly one entry for the id.
\<close>

theorem createGroup_idempotent:
  "(map_of (groups s) g \<noteq> None \<longrightarrow> createGroup e s g = (None, s)) \<and>
   (createGroup e s g = (None, s1) \<longrightarrow>
      map_of (groups s1) g \<noteq> None \<and> createGroup e2 s1 g = (None, s1) \<and>
      (distinct (map fst (groups s)) \<longrightarrow> count_list (map fst (groups s1)) g = 1))"
proof (intro conjI impI)
  assume "map_of (groups s) g \<noteq> None"
  then show "createGroup e s g = (None, s)" by (rule createGroup_present)
next
  assume a: "createGroup e s g = (None, s1)"
  show p: "map_of (groups s1) g \<noteq> None"
  proof (cases "map_of (groups s) g")
    case None
    with a have "groups s1 = AList.update g newGroup (groups s)" by (rule createGroup_groups)
    then show ?thesis by (simp add: update_conv')
  next
    case (Some x)
    then have "createGroup e s g = (None, s)" by (simp add: createGroup_present)
    with a have "s1 = s" by simp
    with Some show ?thesis by simp
  qed
  then show "createGroup e2 s1 g = (None, s1)" by (rule createGroup_present)
next
  assume a: "createGroup e s g = (None, s1)" and d: "distinct (map fst (groups s))"
  show "count_list (map fst (groups s1)) g = 1"
  proof (cases "map_of (groups s) g")
    case None
    with a have "groups s1 = AList.update g newGroup (groups s)" by (rule createGroup_groups)
    with None show ?thesis by (simp add: count_update_absent)
  next
    case (Some x)
    then have "createGroup e s g = (None, s)" by (simp add: createGroup_present)
    with a have "s1 = s" by simp
    with Some d show ?thesis by (simp add: count_present)
  qed
qed

lemma createGroup_state0: "createGroup env0 state0 1 = (None, state1)"
  by (simp add: state1_def createGroup_def env0_def state0_def newState_def emit_def addNode_def
      registerGroup_def raftCfg0_def Let_def)

lemma groups_state0: "groups state0 = []"
  by (simp add: state0_def newState_def)

theorem createGroup_idempotent_witness:
  "createGroup env0 state0 1 = (None, state1) \<and>
   distinct (map fst (groups state0)) \<and>
   map_of (groups state1) 1 \<noteq> None \<and>
   createGroup env0 state1 1 = (None, state1) \<and>
   count_list (map fst (groups state1)) 1 = 1"
proof -
  have c: "createGroup env0 state0 1 = (None, state1)" by (rule createGroup_state0)
  have d: "distinct (map fst (groups state0))" by (simp add: groups_state0)
  from createGroup_idempotent [of state0 1 env0 state1 env0] c d
  have "map_of (groups state1) 1 \<noteq> None \<and> createGroup env0 state1 1 = (None, state1) \<and>
        count_list (map fst (groups state1)) 1 = 1"
    by blast
  with c d show ?thesis by blast
qed

subsection \<open>removeGroup\<close>

lemma removeGroup_nodes_groups: "removeGroup_nodes s ns g = Inr s' \<Longrightarrow> groups s' = groups s"
  by (induction s ns g rule: removeGroup_nodes.induct) (auto split: option.splits)

lemma removeGroup_absent:
  "map_of (groups s) (op_groupID op) = None \<Longrightarrow> removeGroup e s op = Inr (emit s [ChanSend (op_ch op) None])"
  by (simp add: removeGroup_def)

lemma removeGroup_removed:
  assumes "removeGroup e s op = Inr s1" and "multiNode_RemoveGroup e (op_groupID op) = None"
  shows "map_of (groups s1) (op_groupID op) = None"
proof (cases "map_of (groups s) (op_groupID op)")
  case None
  with assms show ?thesis by (auto simp: removeGroup_def)
next
  case (Some x)
  obtain cs er where i: "InitialState e (op_groupID op) = (cs, er)"
    by (cases "InitialState e (op_groupID op)")
  let ?s2 = "case er of None \<Rightarrow> emit s [MultiNodeRemoveGroup (op_groupID op)]
             | Some x \<Rightarrow> emit (emit s [MultiNodeRemoveGroup (op_groupID op)])
                           [ChanSend (op_ch op) (Some x)]"
  have r: "removeGroup e s op =
      (case removeGroup_nodes ?s2 cs (op_groupID op) of
         Inl p \<Rightarrow> Inl p
       | Inr s3 \<Rightarrow> Inr (emit (s3\<lparr>groups := AList.delete (op_groupID op) (groups s3)\<rparr>)
                              [ChanSend (op_ch op) None]))"
    using Some i assms(2) by (simp add: removeGroup_def Let_def)
  show ?thesis
  proof (cases "removeGroup_nodes ?s2 cs (op_groupID op)")
    case (Inl p)
    with r assms(1) show ?thesis by simp
  next
    case (Inr s3)
    with r assms(1) have "s1 = emit (s3\<lparr>groups := AList.delete (op_groupID op) (groups s3)\<rparr>)
                              [ChanSend (op_ch op) None]" by simp
    then show ?thesis by (simp add: delete_conv')
  qed
qed

text \<open>
  Claim C9. \<^verbatim>\<open>removeGroup\<close> is idempotent: for a group id that is not in the group
  table it sends nil on the operation's channel and changes nothing else. After a
  removal that got past \<^verbatim>\<open>multiNode.RemoveGroup\<close> and returned, the id is gone from
  the table, so a second removal of the same id answers nil.
\<close>

theorem removeGroup_idempotent:
  "(map_of (groups s) (op_groupID op) = None \<longrightarrow>
      removeGroup e s op = Inr (emit s [ChanSend (op_ch op) None])) \<and>
   (removeGroup e s op = Inr s1 \<and> multiNode_RemoveGroup e (op_groupID op) = None \<and>
    op_groupID op2 = op_groupID op \<longrightarrow>
      removeGroup e2 s1 op2 = Inr (emit s1 [ChanSend (op_ch op2) None]))"
proof (intro conjI impI)
  assume "map_of (groups s) (op_groupID op) = None"
  then show "removeGroup e s op = Inr (emit s [ChanSend (op_ch op) None])"
    by (rule removeGroup_absent)
next
  assume a: "removeGroup e s op = Inr s1 \<and> multiNode_RemoveGroup e (op_groupID op) = None \<and>
    op_groupID op2 = op_groupID op"
  then have "map_of (groups s1) (op_groupID op) = None"
    using removeGroup_removed by blast
  with a have "map_of (groups s1) (op_groupID op2) = None" by simp
  then show "removeGroup e2 s1 op2 = Inr (emit s1 [ChanSend (op_ch op2) None])"
    by (rule removeGroup_absent)
qed


lemma removeGroup_state1: "removeGroup env0 state1 removeOp1 = Inr state2"
  by (simp add: removeGroup_def state1_def state2_def removeOp1_def env0_def state0_def
      newState_def emit_def unregisterGroup_def newGroup_def Let_def)

theorem removeGroup_idempotent_witness:
  "map_of (groups state2) (op_groupID removeOp1) = None \<and>
   removeGroup env0 state1 removeOp1 = Inr state2 \<and>
   multiNode_RemoveGroup env0 (op_groupID removeOp1) = None \<and>
   removeGroup env0 state2 removeOp1 = Inr (emit state2 [ChanSend (op_ch removeOp1) None])"
proof -
  have a: "removeGroup env0 state1 removeOp1 = Inr state2" by (rule removeGroup_state1)
  have b: "multiNode_RemoveGroup env0 (op_groupID removeOp1) = None" by (simp add: env0_def)
  have c: "map_of (groups state2) (op_groupID removeOp1) = None"
    by (simp add: state2_def state0_def newState_def)
  from removeGroup_idempotent [of state1 removeOp1 env0 state2 removeOp1 env0] a b
  have d: "removeGroup env0 state2 removeOp1 = Inr (emit state2 [ChanSend (op_ch removeOp1) None])"
    by blast
  from removeGroup_idempotent [of state2 removeOp1 env0 state2 removeOp1 env0] c
  have "removeGroup env0 state2 removeOp1 = Inr (emit state2 [ChanSend (op_ch removeOp1) None])"
    by blast
  with a b c show ?thesis by blast
qed

subsection \<open>propose\<close>

text \<open>
  Claim C7, as amended. When a proposal is dispatched for a group id that is not in the
  group table, the group table, the peer registry, the proposal objects and the proposal
  queue are unchanged, the thunk is not invoked, and an error \<^verbatim>\<open>group not found\<close> is
  sent on the completion channel if the channel field is not nil; a proposal whose
  channel field is nil is dropped without a signal. When the group exists, the proposal
  is stored in the group's \<open>pending\<close> map under its command id and the thunk is invoked
  once.
\<close>

theorem propose_dispatch:
  "(map_of (groups s) (groupID (heap s p)) = None \<longrightarrow>
      groups (propose s p) = groups s \<and> nodes (propose s p) = nodes s \<and>
      heap (propose s p) = heap s \<and> proposalChan (propose s p) = proposalChan s \<and>
      effects (propose s p) = effects s @
        (case ch (heap s p) of
           Some c \<Rightarrow> [ChanSend c (Some (GroupNotFound (groupID (heap s p))))]
         | None \<Rightarrow> [])) \<and>
   (map_of (groups s) (groupID (heap s p)) = Some g \<longrightarrow>
      groups (propose s p) =
        AList.update (groupID (heap s p))
          (g\<lparr>pending := AList.update (commandID (heap s p)) p (pending g)\<rparr>) (groups s) \<and>
      (\<exists>g'. map_of (groups (propose s p)) (groupID (heap s p)) = Some g' \<and>
            map_of (pending g') (commandID (heap s p)) = Some p) \<and>
      effects (propose s p) = effects s @ [thunk_call (fn (heap s p))])"
  by (auto simp: propose_def run_fn_def update_conv' split: option.splits)

text \<open>
  The claim as first stated promises an error on the completion channel for every
  proposal against a missing group. For a proposal object whose channel was nulled by an
  earlier commit, \<^verbatim>\<open>propose\<close> sends nothing.
\<close>

theorem propose_nil_channel_counterexample:
  "map_of (groups state_done) (groupID (heap state_done 0)) = None \<and>
   ch (heap state_done 0) = None \<and>
   propose state_done 0 = state_done \<and> effects state_done = []"
  by (simp add: propose_def state_done_def newState_def prop0_def)

theorem propose_dispatch_witness:
  "map_of (groups state0) (groupID (heap state0 0)) = None \<and>
   effects (propose state0 0) = [ChanSend 7 (Some (GroupNotFound 1))] \<and>
   groups (propose state0 0) = [] \<and>
   map_of (groups state1) (groupID (heap state1 0)) = Some newGroup \<and>
   groups (propose state1 0) = [(1, newGroup\<lparr>pending := [(''cmd-0000-0000-01'', 0)]\<rparr>)] \<and>
   effects (propose state1 0) =
     effects state1 @ [MultiNodePropose 1 (''cmd-0000-0000-01'' @ ''hello'')]"
proof -
  have a: "map_of (groups state0) (groupID (heap state0 0)) = None"
    by (simp add: state0_def newState_def)
  have b: "map_of (groups state1) (groupID (heap state1 0)) = Some newGroup"
    by (simp add: state1_def state0_def newState_def prop0_def)
  have h0: "heap state0 0 = prop0" "effects state0 = []" "groups state0 = []"
    by (simp_all add: state0_def newState_def)
  have h1: "heap state1 0 = prop0" "groups state1 = [(1, newGroup)]"
    by (simp_all add: state1_def state0_def newState_def)
  from propose_dispatch [of state0 0 newGroup] a h0
  have c: "effects (propose state0 0) = [ChanSend 7 (Some (GroupNotFound 1))] \<and>
           groups (propose state0 0) = []"
    by (simp add: prop0_def)
  from propose_dispatch [of state1 0 newGroup] b h1
  have d: "groups (propose state1 0) = [(1, newGroup\<lparr>pending := [(''cmd-0000-0000-01'', 0)]\<rparr>)] \<and>
     effects (propose state1 0) =
       effects state1 @ [MultiNodePropose 1 (''cmd-0000-0000-01'' @ ''hello'')]"
    by (simp add: prop0_def newGroup_def encodeCommand_def)
  from a b c d show ?thesis by blast
qed

subsection \<open>Coalesced heartbeats\<close>

lemma emit_emit: "emit (emit s xs) ys = emit s (xs @ ys)"
  by (simp add: emit_def)

lemma emit_Nil: "emit s [] = s"
  by (simp add: emit_def)

lemma heartbeatTo_emit: "heartbeatTo (emit s es) = heartbeatTo s"
  by (rule ext) (simp add: heartbeatTo_def)

lemma coalescedHeartbeat_loop_effects:
  "coalescedHeartbeat_loop s ns = emit s (map (heartbeatTo s) (filter (\<lambda>n. n \<noteq> nodeID s) ns))"
proof (induction ns arbitrary: s)
  case Nil
  then show ?case by (simp add: emit_Nil)
next
  case (Cons n ns)
  then show ?case by (simp add: emit_emit heartbeatTo_emit)
qed

lemma heartbeatTo_inj: "heartbeatTo s n = heartbeatTo s n' \<longleftrightarrow> n = n'"
  by (auto simp: heartbeatTo_def)

lemma count_heartbeats:
  assumes "distinct ns"
  shows "length (filter (isSendTo MsgHeartbeat d) (map (heartbeatTo s) (filter (\<lambda>n. n \<noteq> nodeID s) ns)))
         = (if d \<in> set ns \<and> d \<noteq> nodeID s then 1 else 0)"
  using assms by (induction ns) (auto simp: heartbeatTo_def)

lemma length_peers:
  assumes "distinct ns"
  shows "length (filter (\<lambda>n. n \<noteq> x) ns) = card (set ns - {x})"
proof -
  have "distinct (filter (\<lambda>n. n \<noteq> x) ns)" using assms by simp
  then have "length (filter (\<lambda>n. n \<noteq> x) ns) = card (set (filter (\<lambda>n. n \<noteq> x) ns))"
    by (rule distinct_card [symmetric])
  also have "set (filter (\<lambda>n. n \<noteq> x) ns) = set ns - {x}" by auto
  finally show ?thesis .
qed

lemma all_heartbeats:
  "filter (isSendOf MsgHeartbeat) (map (heartbeatTo s) ns) = map (heartbeatTo s) ns"
  "filter isSend (map (heartbeatTo s) ns) = map (heartbeatTo s) ns"
  by (induction ns) (simp_all add: heartbeatTo_def)

text \<open>
  Claim C2. A run of \<^verbatim>\<open>coalescedHeartbeat\<close> adds to the effects log exactly the
  transport sends of one \<^verbatim>\<open>MsgHeartbeat\<close> per key of \<^verbatim>\<open>s.nodes\<close> other than the local
  node id: one for each such peer, none else, each with \<^verbatim>\<open>From\<close> the local node id, \<^verbatim>\<open>To\<close>
  the peer and group id \<^verbatim>\<open>math.MaxUint64\<close>. The group table plays no part. With a positive
  \<^verbatim>\<open>HeartbeatIntervalTicks\<close> the tick arm counts modulo the interval and runs the emitter
  exactly on the tick that completes an interval.
\<close>

theorem coalescedHeartbeat_one_per_peer:
  assumes "distinct (map fst (nodes s))"
  shows "\<exists>sent.
     coalescedHeartbeat s = emit s sent \<and>
     set sent = {TransportSend n \<lparr>GroupID = MaxUint64,
                                   Message = \<lparr>Type = MsgHeartbeat, To = n, From = nodeID s,
                                              Term = 0\<rparr>\<rparr> | n.
                 n \<in> fst ` set (nodes s) \<and> n \<noteq> nodeID s} \<and>
     (\<forall>d. length (filter (isSendTo MsgHeartbeat d) sent) =
            (if d \<in> fst ` set (nodes s) \<and> d \<noteq> nodeID s then 1 else 0)) \<and>
     length sent = card (fst ` set (nodes s) - {nodeID s}) \<and>
     (0 < HeartbeatIntervalTicks s \<and> 0 \<le> t \<and> t < HeartbeatIntervalTicks s \<longrightarrow>
        handleTick (s, t) =
          (if (t + 1) mod HeartbeatIntervalTicks s = 0
           then (emit s (Tick # sent), 0)
           else (emit s [Tick], (t + 1) mod HeartbeatIntervalTicks s)))"
proof -
  let ?ns = "map fst (nodes s)"
  let ?sent = "map (heartbeatTo s) (filter (\<lambda>n. n \<noteq> nodeID s) ?ns)"
  have a: "coalescedHeartbeat s = emit s ?sent"
    by (simp add: coalescedHeartbeat_def coalescedHeartbeat_loop_effects)
  have b: "set ?sent = {TransportSend n \<lparr>GroupID = MaxUint64,
                                   Message = \<lparr>Type = MsgHeartbeat, To = n, From = nodeID s,
                                              Term = 0\<rparr>\<rparr> | n.
                 n \<in> fst ` set (nodes s) \<and> n \<noteq> nodeID s}"
    by (auto simp: heartbeatTo_def)
  have c: "\<forall>d. length (filter (isSendTo MsgHeartbeat d) ?sent) =
            (if d \<in> fst ` set (nodes s) \<and> d \<noteq> nodeID s then 1 else 0)"
    using count_heartbeats [OF assms, of _ s] by simp
  have d: "length ?sent = card (fst ` set (nodes s) - {nodeID s})"
    using length_peers [OF assms, of "nodeID s"] by simp
  have e: "0 < HeartbeatIntervalTicks s \<and> 0 \<le> t \<and> t < HeartbeatIntervalTicks s \<longrightarrow>
        handleTick (s, t) =
          (if (t + 1) mod HeartbeatIntervalTicks s = 0
           then (emit s (Tick # ?sent), 0)
           else (emit s [Tick], (t + 1) mod HeartbeatIntervalTicks s))"
  proof
    assume h: "0 < HeartbeatIntervalTicks s \<and> 0 \<le> t \<and> t < HeartbeatIntervalTicks s"
    show "handleTick (s, t) =
          (if (t + 1) mod HeartbeatIntervalTicks s = 0
           then (emit s (Tick # ?sent), 0)
           else (emit s [Tick], (t + 1) mod HeartbeatIntervalTicks s))"
    proof (cases "t + 1 = HeartbeatIntervalTicks s")
      case True
      then show ?thesis
        by (simp add: handleTick_def Let_def coalescedHeartbeat_def
            coalescedHeartbeat_loop_effects emit_emit heartbeatTo_emit)
    next
      case False
      with h have lt: "t + 1 < HeartbeatIntervalTicks s" by simp
      with h have "(t + 1) mod HeartbeatIntervalTicks s = t + 1" by simp
      with lt h show ?thesis by (simp add: handleTick_def Let_def)
    qed
  qed
  from a b c d e show ?thesis by blast
qed


theorem coalescedHeartbeat_one_per_peer_witness:
  "distinct (map fst (nodes state3)) \<and>
   0 < HeartbeatIntervalTicks state3 \<and> (0::int) \<le> 0 \<and> 0 < HeartbeatIntervalTicks state3 \<and>
   length (effects (coalescedHeartbeat state3)) = 2 \<and>
   length (filter (isSendTo MsgHeartbeat 2) (effects (coalescedHeartbeat state3))) = 1 \<and>
   length (filter (isSendTo MsgHeartbeat 1) (effects (coalescedHeartbeat state3))) = 0 \<and>
   length (effects (fst (handleTick (state3, 0)))) = 3"
proof -
  have n: "map fst (nodes state3) = [1, 2, 3]" "nodeID state3 = 1" "effects state3 = []"
     "HeartbeatIntervalTicks state3 = 1"
    by (simp_all add: state3_def state0_def newState_def)
  have d: "distinct (map fst (nodes state3))" by (simp add: n)
  have f: "fst ` set (nodes state3) = {1, 2, 3}"
    using n(1) by (metis list.set(1) list.set(2) set_map)
  have c: "card ({1, 2, 3} - {1 :: 64 word}) = 2" by simp
  from coalescedHeartbeat_one_per_peer [OF d, of 0] obtain sent where
    s: "coalescedHeartbeat state3 = emit state3 sent"
       "\<forall>d. length (filter (isSendTo MsgHeartbeat d) sent) =
            (if d \<in> fst ` set (nodes state3) \<and> d \<noteq> nodeID state3 then 1 else 0)"
       "length sent = card (fst ` set (nodes state3) - {nodeID state3})"
       "handleTick (state3, 0) = (emit state3 (Tick # sent), 0)"
    using n by auto
  from s(3) f n c have l: "length sent = 2" by simp
  from s(2) f n have "length (filter (isSendTo MsgHeartbeat 2) sent) = 1"
     "length (filter (isSendTo MsgHeartbeat 1) sent) = 0" by simp_all
  with s l n d show ?thesis by simp
qed

subsection \<open>Fanning out an inbound coalesced heartbeat\<close>


lemma fanoutHeartbeat_loop_panic:
  "\<exists>g\<in>set gs. map_of (groups s) g = None \<Longrightarrow> fanoutHeartbeat_loop s m gs = Inl NilDereference"
proof (induction gs arbitrary: s)
  case Nil
  then show ?case by simp
next
  case (Cons g gs)
  show ?case
  proof (cases "map_of (groups s) g")
    case None
    then show ?thesis by simp
  next
    case (Some grp)
    with Cons.prems have e: "\<exists>g\<in>set gs. map_of (groups s) g = None" by auto
    then have "\<exists>x\<in>set gs. map_of (groups (emit s [Step g m])) x = None" by simp
    with e Some Cons.IH show ?thesis by simp
  qed
qed




subsection \<open>The committed term of a group\<close>




lemma commitEntries_committedTerm:
  "commitEntries e gid sg es = Inr sg' \<Longrightarrow>
   committedTerm (snd sg') = committedTerm (snd sg) \<and> leader (snd sg') = leader (snd sg)"
proof (induction es arbitrary: sg)
  case Nil
  then show ?case by simp
next
  case (Cons entry es)
  then show ?case
    by (cases "processCommittedEntry e (fst sg) gid entry")
       (auto split: option.splits prod.splits)
qed




lemma termHistory_example:
  "termHistory 1 (state0, newGroup) [electionReady 1, emptyReady, electionReady 1, electionReady 3]
     = [0, 1, 1, 1, 3]"
  by code_simp


subsection \<open>Sends of a persisted batch\<close>















subsection \<open>The pipeline of the select loop\<close>

lemma pipelineInv_st [simp]: "pipelineInv (l\<lparr>st := s\<rparr>) = pipelineInv l"
  by (simp add: pipelineInv_def)

lemma pipelineInv_with_st: "with_st l r = Inr l' \<Longrightarrow> pipelineInv l \<Longrightarrow> pipelineInv l'"
  by (cases r) (auto simp: with_st_def)

lemma pipelineInv_start: "pipelineInv (start s)"
  by (simp add: pipelineInv_def start_def)

lemma pipelineInv_step:
  assumes "loop_step e l a = Inr l'" and "pipelineInv l"
  shows "pipelineInv l'"
proof (cases a)
  case ShouldStop
  with assms show ?thesis by simp
next
  case (ReqChan req)
  with assms show ?thesis
    by (auto split: if_splits prod.splits option.splits dest: pipelineInv_with_st)
next
  case (CreateGroupChan gid c)
  with assms show ?thesis by (auto split: prod.splits)
next
  case (RemoveGroupChan op)
  with assms show ?thesis by (auto dest: pipelineInv_with_st)
next
  case ProposalChan
  with assms show ?thesis by (auto split: list.splits)
next
  case (RaftReady rg)
  with assms show ?thesis
    by (auto simp: raftReady_armed_def pipelineInv_def split: if_splits)
next
  case WriteReady
  with assms show ?thesis
    by (auto simp: writeReady_armed_def pipelineInv_def split: if_splits)
next
  case WriteTaskOut
  with assms show ?thesis
    by (auto simp: pipelineInv_def split: option.splits sum.splits)
next
  case TickerChan
  with assms show ?thesis by (auto simp: pipelineInv_def split: prod.splits)
next
  case (CallbackChan cb)
  with assms show ?thesis by (auto dest: pipelineInv_with_st)
next
  case (EnqueueProposal p)
  with assms show ?thesis by auto
qed

lemma pipelineInv_run: "run e l as = Inr l' \<Longrightarrow> pipelineInv l \<Longrightarrow> pipelineInv l'"
proof (induction as arbitrary: l)
  case Nil
  then show ?case by simp
next
  case (Cons a as)
  then show ?case
    by (cases "loop_step e l a") (auto dest: pipelineInv_step)
qed

text \<open>
  Claim C1. In every state that the loop reaches from its start, the raft-ready arm is
  armed exactly when no ready batch is stashed and no write is in flight, the
  write-ready arm exactly when a batch is stashed, and never both; a stashed batch and a
  batch in flight never coexist. A new ready batch is taken from Raft only when nothing
  is stashed, nothing is in flight and the write task holds no request. The write-ready
  arm hands the stashed batch to the write task and makes it the batch in flight. The
  write-done arm fires only when the write task acknowledges the request made from the
  batch in flight, and only then are \<^verbatim>\<open>handleWriteResponse\<close> and \<^verbatim>\<open>Advance\<close> run, on that
  batch.
\<close>

theorem pipeline_one_batch_at_a_time:
  assumes "run e (start s0) as = Inr l"
  shows "(raftReady_armed l \<longleftrightarrow> readyGroups l = None \<and> writingGroups l = None) \<and>
         (writeReady_armed l \<longleftrightarrow> readyGroups l \<noteq> None) \<and>
         \<not> (raftReady_armed l \<and> writeReady_armed l) \<and>
         \<not> (readyGroups l \<noteq> None \<and> writingGroups l \<noteq> None) \<and>
         (writeTask l = None \<longleftrightarrow> writingGroups l = None) \<and>
         (\<forall>rg l'. loop_step e l (RaftReady rg) = Inr l' \<longrightarrow>
            readyGroups l = None \<and> writingGroups l = None \<and> writeTask l = None \<and>
            l' = l\<lparr>readyGroups := Some rg\<rparr>) \<and>
         (\<forall>l'. loop_step e l WriteReady = Inr l' \<longrightarrow>
            (\<exists>b. readyGroups l = Some b \<and> writingGroups l = None \<and> writeTask l = None \<and>
                 st l' = emit (st l) [WriteTaskIn (writeRequestOf (Some b))] \<and>
                 writeTask l' = Some (writeRequestOf (Some b)) \<and>
                 writingGroups l' = Some b \<and> readyGroups l' = None)) \<and>
         (\<forall>l'. loop_step e l WriteTaskOut = Inr l' \<longrightarrow>
            (\<exists>b s1. writingGroups l = Some b \<and> readyGroups l = None \<and>
                    writeTask l = Some (writeRequestOf (Some b)) \<and>
                    handleWriteResponse e (st l) (Some b) = Inr s1 \<and>
                    st l' = emit s1 [Advance (Some b)] \<and>
                    writingGroups l' = None \<and> writeTask l' = None))"
proof -
  from assms have inv: "pipelineInv l" by (rule pipelineInv_run) (rule pipelineInv_start)
  have a: "raftReady_armed l \<longleftrightarrow> readyGroups l = None \<and> writingGroups l = None"
    by (simp add: raftReady_armed_def)
  have b: "writeReady_armed l \<longleftrightarrow> readyGroups l \<noteq> None"
    by (simp add: writeReady_armed_def)
  have c: "\<not> (raftReady_armed l \<and> writeReady_armed l)"
    by (auto simp: raftReady_armed_def writeReady_armed_def)
  have d: "\<not> (readyGroups l \<noteq> None \<and> writingGroups l \<noteq> None)"
    using inv by (auto simp: pipelineInv_def)
  have w: "writeTask l = None \<longleftrightarrow> writingGroups l = None"
    using inv by (auto simp: pipelineInv_def split: option.splits)
  have f: "\<forall>rg l'. loop_step e l (RaftReady rg) = Inr l' \<longrightarrow>
            readyGroups l = None \<and> writingGroups l = None \<and> writeTask l = None \<and>
            l' = l\<lparr>readyGroups := Some rg\<rparr>"
    using w by (auto simp: raftReady_armed_def split: if_splits)
  have g: "\<forall>l'. loop_step e l WriteReady = Inr l' \<longrightarrow>
            (\<exists>b. readyGroups l = Some b \<and> writingGroups l = None \<and> writeTask l = None \<and>
                 st l' = emit (st l) [WriteTaskIn (writeRequestOf (Some b))] \<and>
                 writeTask l' = Some (writeRequestOf (Some b)) \<and>
                 writingGroups l' = Some b \<and> readyGroups l' = None)"
    using d by (auto simp: writeReady_armed_def handleWriteReady_def split: if_splits)
  have h: "\<forall>l'. loop_step e l WriteTaskOut = Inr l' \<longrightarrow>
            (\<exists>b s1. writingGroups l = Some b \<and> readyGroups l = None \<and>
                    writeTask l = Some (writeRequestOf (Some b)) \<and>
                    handleWriteResponse e (st l) (Some b) = Inr s1 \<and>
                    st l' = emit s1 [Advance (Some b)] \<and>
                    writingGroups l' = None \<and> writeTask l' = None)"
  proof (intro allI impI)
    fix l'
    assume s: "loop_step e l WriteTaskOut = Inr l'"
    then obtain req where r: "writeTask l = Some req" by (auto split: option.splits)
    with w obtain b where b: "writingGroups l = Some b" by auto
    with inv r have q: "req = writeRequestOf (Some b)" by (simp add: pipelineInv_def)
    from d b have n: "readyGroups l = None" by auto
    from s r b obtain s1 where
      "handleWriteResponse e (st l) (Some b) = Inr s1" "l' = l\<lparr>st := emit s1 [Advance (Some b)],
                              writingGroups := None, writeTask := None\<rparr>"
      by (auto split: sum.splits)
    with r b q n show "\<exists>b s1. writingGroups l = Some b \<and> readyGroups l = None \<and>
                    writeTask l = Some (writeRequestOf (Some b)) \<and>
                    handleWriteResponse e (st l) (Some b) = Inr s1 \<and>
                    st l' = emit s1 [Advance (Some b)] \<and>
                    writingGroups l' = None \<and> writeTask l' = None"
      by simp
  qed
  from a b c d w f g h show ?thesis by blast
qed


lemma step_loop0: "loop_step env0 (start state0) (RaftReady readyBatch1) = Inr loop1"
  by (simp add: loop1_def start_def raftReady_armed_def)

lemma run_loop1: "run env0 (start state0) [RaftReady readyBatch1] = Inr loop1"
  by (simp add: step_loop0 del: loop_step.simps)

lemma step_loop1: "loop_step env0 loop1 WriteReady = Inr loop2"
  by (simp add: loop1_def loop2_def start_def writeReady_armed_def handleWriteReady_def)

lemma run_loop2: "run env0 (start state0) [RaftReady readyBatch1, WriteReady] = Inr loop2"
  by (simp add: step_loop0 step_loop1 del: loop_step.simps)

lemma step_loop2:
  "loop_step env0 loop2 WriteTaskOut =
     Inr (loop2\<lparr>st := emit (st loop2) [Advance (Some readyBatch1)],
                writingGroups := None, writeTask := None\<rparr>)"
  by (simp add: loop2_def start_def handleWriteResponse_def readyBatch1_def state0_def
      newState_def)

theorem pipeline_one_batch_at_a_time_witness:
  "run env0 (start state0) [] = Inr (start state0) \<and>
   raftReady_armed (start state0) \<and> \<not> writeReady_armed (start state0) \<and>
   loop_step env0 (start state0) (RaftReady readyBatch1) = Inr loop1 \<and>
   writeTask (start state0) = None \<and>
   run env0 (start state0) [RaftReady readyBatch1] = Inr loop1 \<and>
   writeReady_armed loop1 \<and> \<not> raftReady_armed loop1 \<and>
   loop_step env0 loop1 WriteReady = Inr loop2 \<and>
   writingGroups loop2 = Some readyBatch1 \<and>
   run env0 (start state0) [RaftReady readyBatch1, WriteReady] = Inr loop2 \<and>
   \<not> writeReady_armed loop2 \<and> \<not> raftReady_armed loop2 \<and>
   loop_step env0 loop2 WriteTaskOut =
     Inr (loop2\<lparr>st := emit (st loop2) [Advance (Some readyBatch1)],
                writingGroups := None, writeTask := None\<rparr>) \<and>
   writeTask loop2 = Some (writeRequestOf (Some readyBatch1))"
proof -
  have r0: "run env0 (start state0) [] = Inr (start state0)" by simp
  have s0: "loop_step env0 (start state0) (RaftReady readyBatch1) = Inr loop1"
    by (rule step_loop0)
  have n0: "readyGroups (start state0) = None" "writingGroups (start state0) = None"
    by (simp_all add: start_def)
  have n1: "readyGroups loop1 = Some readyBatch1" by (simp add: loop1_def)
  have n2: "readyGroups loop2 = None" "writingGroups loop2 = Some readyBatch1"
    by (simp_all add: loop2_def start_def)
  from pipeline_one_batch_at_a_time [OF r0] n0 s0
  have a: "raftReady_armed (start state0) \<and> \<not> writeReady_armed (start state0) \<and>
           writeTask (start state0) = None"
    by blast
  from pipeline_one_batch_at_a_time [OF run_loop1] n1
  have b: "writeReady_armed loop1 \<and> \<not> raftReady_armed loop1"
    by blast
  from pipeline_one_batch_at_a_time [OF run_loop2] n2 step_loop2
  have c: "\<not> writeReady_armed loop2 \<and> \<not> raftReady_armed loop2 \<and>
           writeTask loop2 = Some (writeRequestOf (Some readyBatch1))"
    by auto
  from r0 s0 a b c run_loop1 run_loop2 step_loop1 step_loop2 n2 show ?thesis by blast
qed

subsection \<open>Completion channels\<close>

text \<open>The commit path signals a proposal object at most once: \<^verbatim>\<open>p.ch\<close> is nil after the
  first signal and the second call sends nothing.\<close>

lemma finish_nulls: "ch (heap (finish s p) p) = None"
  by (cases "ch (heap s p)") (simp_all add: finish_def)

lemma finish_finish: "finish (finish s p) p = finish s p"
  using finish_nulls [of s p] by (simp add: finish_def [of "finish s p"])

text \<open>
  Claim C5 says that a completion channel is signalled at most once over the process
  lifetime. The run \<open>trace_requeued\<close> of a node in a group of three signals channel 7,
  the channel of the one proposal object, twice: two committed elections put the pending
  proposal on the proposal queue twice, the group is removed, and \<^verbatim>\<open>propose\<close> then sends
  the error \<^verbatim>\<open>group not found\<close> for each queued copy, because its error path leaves
  \<^verbatim>\<open>p.ch\<close> set.
\<close>

theorem completion_channel_signalled_twice:
  "(case run env3 (start state0) trace_requeued of
      Inl h \<Rightarrow> []
    | Inr l \<Rightarrow> filter (isSignalOn 7) (effects (st l))) =
   [ChanSend 7 (Some (GroupNotFound 1)), ChanSend 7 (Some (GroupNotFound 1))]"
  by code_simp

subsection \<open>Registered groups and the group table\<close>

text \<open>
  Claim C10 says that in every reachable state each group id registered for a peer is a
  key of the group table, so that the fan-out never reads a missing group. The run
  \<open>trace_dangling\<close> ends in a state where node 2 is still registered for the removed
  group 1: \<^verbatim>\<open>sendMessage\<close> registered node 2 when the vote reply was sent, and
  \<^verbatim>\<open>removeGroup\<close> unregistered only node 1, the member listed by the storage. The
  coalesced heartbeat from node 2 that follows dereferences the nil group.
\<close>

theorem dangling_group_panics:
  "(case run env0 (start state0) trace_dangling of
      Inl h \<Rightarrow> True
    | Inr l \<Rightarrow> registeredGroupsKnown (st l)) = False \<and>
   (case run env0 (start state0) trace_dangling_hb of
      Inl h \<Rightarrow> Some h
    | Inr l \<Rightarrow> None) = Some (Panicked NilDereference)"
  by code_simp

text \<open>Registration itself keeps the invariant: \<^verbatim>\<open>addNode\<close> refuses a group id that is
  not in the table.\<close>

lemma addNode_refuses:
  "map_of (groups s) g = None \<Longrightarrow> addNode s n [g] = Inl (InvalidGroup g n)"
  by (simp add: addNode_def)

subsection \<open>The tables stay maps\<close>

text \<open>The hypotheses \<open>distinct (map fst \<dots>)\<close> and \<open>distinct (groupIDs n)\<close> of the theorems
  above say that a table has one entry per key. The fresh state satisfies them and the
  registry operations keep them.\<close>

lemma newState_distinct:
  "distinct (map fst (groups (newState n et hb h)))" "distinct (map fst (nodes (newState n et hb h)))"
  by (simp_all add: newState_def)

lemma registerGroup_distinct: "distinct (groupIDs n) \<Longrightarrow> distinct (groupIDs (registerGroup n g))"
  by (simp add: registerGroup_def)

lemma unregisterGroup_distinct:
  "distinct (groupIDs n) \<Longrightarrow> distinct (groupIDs (unregisterGroup n g))"
  by (simp add: unregisterGroup_def distinct_removeAll)

lemma addNode_distinct:
  "addNode s n gs = Inr s' \<Longrightarrow> distinct (map fst (nodes s)) \<Longrightarrow> distinct (map fst (nodes s'))"
  by (auto simp: addNode_def Let_def distinct_update split: option.splits)

lemma createGroup_nodes_distinct:
  "createGroup_nodes s ns g = (r, s') \<Longrightarrow> distinct (map fst (nodes s)) \<Longrightarrow>
   distinct (map fst (nodes s'))"
  by (induction s ns g rule: createGroup_nodes.induct)
     (auto split: sum.splits dest: addNode_distinct)

lemma removeGroup_nodes_distinct:
  "removeGroup_nodes s ns g = Inr s' \<Longrightarrow> distinct (map fst (nodes s)) \<Longrightarrow>
   distinct (map fst (nodes s'))"
  by (induction s ns g rule: removeGroup_nodes.induct)
     (auto split: option.splits simp: distinct_update)

lemma removeGroup_groups_distinct:
  assumes "removeGroup e s op = Inr s'" and "distinct (map fst (groups s))"
  shows "distinct (map fst (groups s'))"
proof (cases "map_of (groups s) (op_groupID op)")
  case None
  with assms show ?thesis by (auto simp: removeGroup_def)
next
  case (Some x)
  show ?thesis
  proof (cases "multiNode_RemoveGroup e (op_groupID op)")
    case (Some er)
    with assms \<open>map_of (groups s) (op_groupID op) = Some x\<close> show ?thesis
      by (auto simp: removeGroup_def Let_def)
  next
    case None
    obtain cs er where i: "InitialState e (op_groupID op) = (cs, er)"
      by (cases "InitialState e (op_groupID op)")
    let ?s2 = "case er of None \<Rightarrow> emit s [MultiNodeRemoveGroup (op_groupID op)]
               | Some x \<Rightarrow> emit (emit s [MultiNodeRemoveGroup (op_groupID op)])
                             [ChanSend (op_ch op) (Some x)]"
    have g2: "groups ?s2 = groups s" by (cases er) simp_all
    have r: "removeGroup e s op =
        (case removeGroup_nodes ?s2 cs (op_groupID op) of
           Inl p \<Rightarrow> Inl p
         | Inr s3 \<Rightarrow> Inr (emit (s3\<lparr>groups := AList.delete (op_groupID op) (groups s3)\<rparr>)
                                [ChanSend (op_ch op) None]))"
      using \<open>map_of (groups s) (op_groupID op) = Some x\<close> i None
      by (simp add: removeGroup_def Let_def)
    show ?thesis
    proof (cases "removeGroup_nodes ?s2 cs (op_groupID op)")
      case (Inl p)
      with r assms(1) show ?thesis by simp
    next
      case (Inr s3)
      then have "groups s3 = groups ?s2" by (rule removeGroup_nodes_groups)
      with g2 assms(2) have "distinct (map fst (AList.delete (op_groupID op) (groups s3)))"
        by (simp add: distinct_delete)
      moreover from r Inr assms(1)
      have "s' = emit (s3\<lparr>groups := AList.delete (op_groupID op) (groups s3)\<rparr>)
                      [ChanSend (op_ch op) None]" by simp
      ultimately show ?thesis by simp
    qed
  qed
qed

lemma propose_groups_distinct:
  "distinct (map fst (groups s)) \<Longrightarrow> distinct (map fst (groups (propose s p)))"
  by (auto simp: propose_def run_fn_def distinct_update split: option.splits)

end
